theory Spec2Isabelle
  imports Complex_Main "HOL-Library.Multiset"
begin

section \<open>Data model of the timeline segment editor\<close>

text \<open>
  The two timeline tracks of the editor, \<^verbatim>\<open>CaptionTrack.tsx\<close> and
  \<^verbatim>\<open>SceneTrack.tsx\<close>, embedded as pure functions on an explicit editor state.
  JavaScript numbers are modelled as real numbers: rounding, overflow, \<^verbatim>\<open>NaN\<close> and
  the infinities of IEEE doubles are outside the model, except for the result of a division,
  where a zero divisor is made explicit (\<open>js_div\<close>).
\<close>

text \<open>Caption segments: \<^verbatim>\<open>{ id: string; start: number; end: number; text: string }\<close>.\<close>

record caption_segment =
  seg_id :: string
  seg_start :: real
  seg_end :: real
  seg_text :: string

text \<open>Scene segments: \<^verbatim>\<open>{ start, end, mode }\<close> with \<^verbatim>\<open>mode\<close> one of
  \<^verbatim>\<open>"default" | "cameraOnly" | "hideCamera"\<close>.\<close>

datatype SceneMode = Default | CameraOnly | HideCamera

record SceneSegment =
  sc_start :: real
  sc_end :: real
  sc_mode :: SceneMode

text \<open>\<^verbatim>\<open>project.captions\<close>: the object may be missing, or be there without a
  \<^verbatim>\<open>segments\<close> array.\<close>

datatype captions = NoCaptions | NoSegments | Segments "caption_segment list"

text \<open>The value of \<^verbatim>\<open>project?.captions?.segments\<close>.\<close>

fun caption_segments :: "captions \<Rightarrow> caption_segment list option" where
  "caption_segments NoCaptions = None"
| "caption_segments NoSegments = None"
| "caption_segments (Segments xs) = Some xs"

text \<open>\<^verbatim>\<open>editorState.timeline.selection\<close>: \<^verbatim>\<open>{ type: "caption", id }\<close>,
  \<^verbatim>\<open>{ type: "scene", index }\<close> or \<^verbatim>\<open>null\<close> (\<open>None\<close>).\<close>

datatype selection = CaptionSelection string | SceneSelection nat

text \<open>
  The shared state the handlers read and write: the project document
  (\<open>captions\<close>, and \<open>timelineSceneSegments\<close> for
  \<^verbatim>\<open>project.timeline?.sceneSegments\<close>, \<open>None\<close> when the timeline or its array is
  missing), the editor state (\<open>selection\<close>,
  \<open>playbackTime\<close>, the viewport \<open>position\<close> and \<open>zoom\<close>), and the effects of
  \<^verbatim>\<open>setTimeout\<close>: every timer callback of the two files but one (a focus request)
  emits \<^verbatim>\<open>events.renderFrameEvent\<close>, so \<open>timers\<close> lists the delays in
  milliseconds of the render-refresh callbacks scheduled and not yet run, in scheduling
  order, and \<open>emitted\<close> the frame numbers of the events emitted so far.
\<close>

record editor =
  captions :: captions
  timelineSceneSegments :: "SceneSegment list option"
  selection :: "selection option"
  playbackTime :: real
  position :: real
  zoom :: real
  timers :: "nat list"
  emitted :: "int list"

text \<open>\<^verbatim>\<open>setTimeout(() => events.renderFrameEvent.emit({...}), delay)\<close>.\<close>

definition scheduleRefresh :: "nat \<Rightarrow> editor \<Rightarrow> editor" where
  "scheduleRefresh delay e = e\<lparr>timers := timers e @ [delay]\<rparr>"

text \<open>
  A timer callback running: it reads the playhead when it runs and emits
  \<^verbatim>\<open>frame_number: Math.floor(editorState.playbackTime * FPS)\<close>. The constant
  \<^verbatim>\<open>FPS\<close> is imported from the editor context, which is not among the sources,
  and is a parameter here. The state has no clock, so which pending callback runs next is
  left open: \<open>i\<close> is its position in \<open>timers\<close>.
\<close>

definition runTimer :: "real \<Rightarrow> nat \<Rightarrow> editor \<Rightarrow> editor" where
  "runTimer FPS i e =
     (if i < length (timers e)
      then e\<lparr>timers := take i (timers e) @ drop (Suc i) (timers e),
             emitted := emitted e @ [\<lfloor>playbackTime e * FPS\<rfloor>]\<rparr>
      else e)"

section \<open>Library functions the handlers call\<close>

text \<open>\<^verbatim>\<open>Array.prototype.findIndex\<close>: the first index whose element satisfies the
  predicate; JavaScript's \<^verbatim>\<open>-1\<close> is \<open>None\<close>.\<close>

fun findIndex :: "('a \<Rightarrow> bool) \<Rightarrow> 'a list \<Rightarrow> nat option" where
  "findIndex p [] = None"
| "findIndex p (x # xs) = (if p x then Some 0 else map_option Suc (findIndex p xs))"

text \<open>
  \<^verbatim>\<open>segments.sort((a, b) => a.start - b.start)\<close>: \<^verbatim>\<open>Array.prototype.sort\<close> is
  a stable sort, ascending in the comparator; it is modelled by the stable insertion sort
  \<open>sort_key\<close> on the \<^verbatim>\<open>start\<close> field.
\<close>

definition sortCaptions :: "caption_segment list \<Rightarrow> caption_segment list" where
  "sortCaptions segments = sort_key seg_start segments"

definition sortScenes :: "SceneSegment list \<Rightarrow> SceneSegment list" where
  "sortScenes segments = sort_key sc_start segments"



section \<open>CaptionTrack.tsx\<close>

subsection \<open>The component \<^verbatim>\<open>CaptionSegment\<close>\<close>

text \<open>The drag kinds \<^verbatim>\<open>"start" | "end" | "move"\<close>.\<close>

datatype drag_type = DragStart | DragEnd | DragMove

text \<open>
  The local state of one \<^verbatim>\<open>CaptionSegment\<close>: its three signals, and the closure of
  the \<^verbatim>\<open>mousemove\<close>/\<open>mouseup\<close> listeners that \<^verbatim>\<open>handleMouseDown\<close> registers on
  the document (\<^verbatim>\<open>type\<close>, \<^verbatim>\<open>startPos\<close>, \<^verbatim>\<open>startSegment\<close>), \<open>None\<close>
  when no listener is registered.
\<close>

record caption_view =
  isDragging :: "drag_type option"
  isEditing :: bool
  editText :: string
  listeners :: "(drag_type \<times> real \<times> caption_segment) option"

text \<open>The two effects of the component; \<open>segment\<close> and \<open>isSelected\<close> are its props.\<close>

definition effect_syncText :: "caption_segment \<Rightarrow> caption_view \<Rightarrow> caption_view" where
  "effect_syncText segment v =
     (if \<not> isEditing v then v\<lparr>editText := seg_text segment\<rparr> else v)"

definition effect_stopEditing :: "bool \<Rightarrow> caption_view \<Rightarrow> caption_view" where
  "effect_stopEditing isSelected v =
     (if \<not> isSelected \<and> isEditing v then v\<lparr>isEditing := False\<rparr> else v)"



text \<open>\<^verbatim>\<open>onSelect\<close>, the prop that \<^verbatim>\<open>CaptionTrack\<close> passes to each segment.\<close>

definition onSelect :: "string \<Rightarrow> editor \<Rightarrow> editor" where
  "onSelect sid e = scheduleRefresh 100 (e\<lparr>selection := Some (CaptionSelection sid)\<rparr>)"

text \<open>
  \<^verbatim>\<open>handleMouseMove\<close>, the listener of one gesture. \<open>pid\<close> is
  \<^verbatim>\<open>props.segment.id\<close> and \<open>clientX\<close> the pointer position of the event.
\<close>

definition handleMouseMove ::
  "drag_type \<Rightarrow> real \<Rightarrow> caption_segment \<Rightarrow> string \<Rightarrow> real \<Rightarrow> real \<Rightarrow> editor \<Rightarrow> editor" where
  "handleMouseMove type startPos startSegment pid clientX secsPerPixel e =
     (let delta = (clientX - startPos) * secsPerPixel in
      case caption_segments (captions e) of
        None \<Rightarrow> e
      | Some segments \<Rightarrow>
          (case findIndex (\<lambda>s. seg_id s = pid) segments of
             None \<Rightarrow> e
           | Some segmentIndex \<Rightarrow>
               (let old = segments ! segmentIndex;
                    new =
                      (case type of
                         DragStart \<Rightarrow>
                           (let newStart =
                                  max 0 (min (seg_start startSegment + delta)
                                             (seg_end startSegment - 0.1))
                            in old\<lparr>seg_start := newStart\<rparr>)
                       | DragEnd \<Rightarrow>
                           (let newEnd =
                                  max (seg_start startSegment + 0.1)
                                      (seg_end startSegment + delta)
                            in old\<lparr>seg_end := newEnd\<rparr>)
                       | DragMove \<Rightarrow>
                           (let duration = seg_end startSegment - seg_start startSegment;
                                newStart = max 0 (seg_start startSegment + delta)
                            in old\<lparr>seg_start := newStart, seg_end := newStart + duration\<rparr>))
                in e\<lparr>captions := Segments (segments[segmentIndex := new])\<rparr>)))"

text \<open>\<^verbatim>\<open>handleMouseUp\<close>: clears the signal, removes the listeners, schedules one
  refresh; it does not touch the project.\<close>

definition handleMouseUp :: "caption_view \<times> editor \<Rightarrow> caption_view \<times> editor" where
  "handleMouseUp = (\<lambda>(v, e).
     (v\<lparr>isDragging := None, listeners := None\<rparr>, scheduleRefresh 100 e))"

text \<open>\<^verbatim>\<open>handleMouseDown(e, type)\<close> on the segment \<open>segment\<close> (the prop), with the
  pointer at \<open>clientX\<close>.\<close>

definition handleMouseDown ::
  "caption_segment \<Rightarrow> drag_type \<Rightarrow> real \<Rightarrow> caption_view \<times> editor \<Rightarrow> caption_view \<times> editor" where
  "handleMouseDown segment type clientX = (\<lambda>(v, e).
     if isEditing v then (v, e)
     else (v\<lparr>isDragging := Some type, listeners := Some (type, clientX, segment)\<rparr>,
           onSelect (seg_id segment) e))"

text \<open>A \<^verbatim>\<open>mousemove\<close> event on the document reaches the listener of the gesture, if
  one is registered.\<close>

definition document_mousemove ::
  "string \<Rightarrow> real \<Rightarrow> real \<Rightarrow> caption_view \<times> editor \<Rightarrow> caption_view \<times> editor" where
  "document_mousemove pid clientX secsPerPixel = (\<lambda>(v, e).
     case listeners v of
       None \<Rightarrow> (v, e)
     | Some (type, startPos, startSegment) \<Rightarrow>
         (v, handleMouseMove type startPos startSegment pid clientX secsPerPixel e))"

definition document_mouseup :: "caption_view \<times> editor \<Rightarrow> caption_view \<times> editor" where
  "document_mouseup = (\<lambda>(v, e).
     case listeners v of None \<Rightarrow> (v, e) | Some _ \<Rightarrow> handleMouseUp (v, e))"

text \<open>
  One whole gesture on the segment \<open>segment\<close>: pointer down at \<open>downX\<close>, one
  \<^verbatim>\<open>mousemove\<close> for each element of \<open>moves\<close> (the pointer position and the value of
  \<^verbatim>\<open>secsPerPixel()\<close> at that event), then pointer up.
\<close>

definition caption_moves ::
  "string \<Rightarrow> (real \<times> real) list \<Rightarrow> caption_view \<times> editor \<Rightarrow> caption_view \<times> editor" where
  "caption_moves pid moves s =
     fold (\<lambda>(clientX, secsPerPixel). document_mousemove pid clientX secsPerPixel) moves s"

definition caption_gesture ::
  "caption_segment \<Rightarrow> drag_type \<Rightarrow> real \<Rightarrow> (real \<times> real) list \<Rightarrow>
     caption_view \<times> editor \<Rightarrow> caption_view \<times> editor" where
  "caption_gesture segment type downX moves s =
     document_mouseup
       (caption_moves (seg_id segment) moves (handleMouseDown segment type downX s))"

text \<open>\<^verbatim>\<open>saveEdit\<close>; \<open>pid\<close> is \<^verbatim>\<open>props.segment.id\<close>.\<close>

definition saveEdit :: "string \<Rightarrow> caption_view \<times> editor \<Rightarrow> caption_view \<times> editor" where
  "saveEdit pid = (\<lambda>(v, e).
     case caption_segments (captions e) of
       None \<Rightarrow> (v, e)
     | Some updatedSegments \<Rightarrow>
         (v\<lparr>isEditing := False\<rparr>,
          (case findIndex (\<lambda>s. seg_id s = pid) updatedSegments of
             None \<Rightarrow> e
           | Some segmentIndex \<Rightarrow>
               scheduleRefresh 200
                 (e\<lparr>captions := Segments (updatedSegments[segmentIndex :=
                        (updatedSegments ! segmentIndex)\<lparr>seg_text := editText v\<rparr>])\<rparr>))))"

text \<open>The handlers of the inline \<^verbatim>\<open>input\<close>: \<^verbatim>\<open>onInput\<close> with the new value of
  the field, \<^verbatim>\<open>onKeyDown\<close> with \<^verbatim>\<open>e.key\<close>, and \<^verbatim>\<open>onBlur\<close>.\<close>

definition onInput :: "string \<Rightarrow> caption_view \<times> editor \<Rightarrow> caption_view \<times> editor" where
  "onInput val = (\<lambda>(v, e). (v\<lparr>editText := val\<rparr>, scheduleRefresh 50 e))"

definition onKeyDown :: "string \<Rightarrow> string \<Rightarrow> caption_view \<times> editor \<Rightarrow> caption_view \<times> editor" where
  "onKeyDown pid key = (\<lambda>(v, e).
     if key = ''Enter'' then saveEdit pid (v, e)
     else if key = ''Escape'' then (v\<lparr>isEditing := False\<rparr>, scheduleRefresh 100 e)
     else (v, e))"

definition onBlur :: "string \<Rightarrow> caption_view \<times> editor \<Rightarrow> caption_view \<times> editor" where
  "onBlur pid s = (case saveEdit pid s of (v, e) \<Rightarrow> (v, scheduleRefresh 300 e))"

text \<open>\<^verbatim>\<open>handleDoubleClick\<close>; \<open>segment\<close> is the prop.\<close>

definition handleDoubleClick ::
  "caption_segment \<Rightarrow> caption_view \<times> editor \<Rightarrow> caption_view \<times> editor" where
  "handleDoubleClick segment = (\<lambda>(v, e).
     (v\<lparr>isEditing := True, editText := seg_text segment\<rparr>, scheduleRefresh 100 e))"

text \<open>
  The \<^verbatim>\<open>onClick\<close> handler of the segment; \<open>isSelected\<close> is the prop. Its timer of
  50 ms asks for the focus and is not a render refresh.
\<close>

definition segment_onClick ::
  "caption_segment \<Rightarrow> bool \<Rightarrow> caption_view \<times> editor \<Rightarrow> caption_view \<times> editor" where
  "segment_onClick segment isSelected = (\<lambda>(v, e).
     if \<not> isSelected then (v, scheduleRefresh 100 (onSelect (seg_id segment) e))
     else if \<not> isEditing v
       then (v\<lparr>isEditing := True, editText := seg_text segment\<rparr>, scheduleRefresh 100 e)
     else (v, scheduleRefresh 100 e))"

text \<open>
  The effects run after a handler has changed a signal: the first one again when the
  second has ended the editing.
\<close>

definition run_effects ::
  "caption_segment \<Rightarrow> bool \<Rightarrow> caption_view \<times> editor \<Rightarrow> caption_view \<times> editor" where
  "run_effects segment isSelected = (\<lambda>(v, e).
     (effect_syncText segment (effect_stopEditing isSelected (effect_syncText segment v)), e))"

text \<open>
  An editing session on the selected segment \<open>segment\<close>: the editor is opened by
  \<open>enter\<close> (a double click, or a click on the selected segment), then the field takes
  the values \<open>vals\<close> one after the other, as the user types; the effects run after each
  handler.
\<close>

definition edit_session ::
  "(caption_view \<times> editor \<Rightarrow> caption_view \<times> editor) \<Rightarrow> caption_segment \<Rightarrow> string list \<Rightarrow>
     caption_view \<times> editor \<Rightarrow> caption_view \<times> editor" where
  "edit_session enter segment vals s =
     fold (\<lambda>val s'. run_effects segment True (onInput val s')) vals
       (run_effects segment True (enter s))"

subsection \<open>The component \<^verbatim>\<open>CaptionTrack\<close>\<close>

text \<open>
  \<^verbatim>\<open>handleAddCaption\<close>. The new id is \<^verbatim>\<open>`caption-${Date.now()}`\<close>; \<open>now\<close> is
  the decimal rendering of \<^verbatim>\<open>Date.now()\<close>.
\<close>

definition handleAddCaption :: "string \<Rightarrow> editor \<Rightarrow> editor" where
  "handleAddCaption now e =
     (case captions e of
        NoCaptions \<Rightarrow> e
      | _ \<Rightarrow>
        (let time = playbackTime e;
             newId = ''caption-'' @ now;
             newSegment = \<lparr>seg_id = newId, seg_start = time, seg_end = time + 2,
                            seg_text = ''New caption''\<rparr>;
             segments =
               (case caption_segments (captions e) of None \<Rightarrow> [] | Some xs \<Rightarrow> xs)
                 @ [newSegment]
         in scheduleRefresh 100
              (e\<lparr>captions := Segments (sortCaptions segments),
                 selection := Some (CaptionSelection newId)\<rparr>)))"

text \<open>The \<^verbatim>\<open>onMouseUp\<close> handler of the track's content element.\<close>

definition track_onMouseUp :: "editor \<Rightarrow> editor" where
  "track_onMouseUp e = scheduleRefresh 150 e"

section \<open>SceneTrack.tsx\<close>

datatype SceneSegmentDragState =
    Idle
  | Moving nat real SceneSegment
  | ResizingStart nat real SceneSegment
  | ResizingEnd nat real SceneSegment

text \<open>The accessor
  \<^verbatim>\<open>const sceneSegments = () => project.timeline?.sceneSegments || []\<close>.\<close>

definition sceneSegments :: "editor \<Rightarrow> SceneSegment list" where
  "sceneSegments e =
     (case timelineSceneSegments e of None \<Rightarrow> [] | Some segments \<Rightarrow> segments)"

text \<open>
  \<^verbatim>\<open>setProject("timeline", "sceneSegments", index, ...)\<close>: the store's path setter
  changes the segment at \<open>index\<close>; where the array is missing or has no element at
  that index nothing is written.
\<close>

definition setSceneSegment ::
  "nat \<Rightarrow> (SceneSegment \<Rightarrow> SceneSegment) \<Rightarrow> editor \<Rightarrow> editor" where
  "setSceneSegment index f e =
     (case timelineSceneSegments e of
        None \<Rightarrow> e
      | Some segments \<Rightarrow>
          if index < length segments
          then e\<lparr>timelineSceneSegments := Some (segments[index := f (segments ! index)])\<rparr>
          else e)"

text \<open>
  The \<^verbatim>\<open>mousemove\<close> listener of one scene gesture. \<open>dragState\<close> is the variable of
  the track when the event arrives; \<open>startMouseX\<close> and \<open>startSegment\<close> are the
  constants of the closure; \<open>segment\<close> is the row's item as the store shows it now and
  \<open>index\<close> the value of \<^verbatim>\<open>index()\<close> now.
\<close>

definition scene_mousemove ::
  "SceneSegmentDragState \<Rightarrow> real \<Rightarrow> SceneSegment \<Rightarrow> SceneSegment \<Rightarrow> nat \<Rightarrow>
     real \<Rightarrow> real \<Rightarrow> editor \<Rightarrow> editor" where
  "scene_mousemove dragState startMouseX startSegment segment index clientX secsPerPixel e =
     (let deltaX = clientX - startMouseX;
          deltaTime = deltaX * secsPerPixel
      in case dragState of
           Moving _ _ _ \<Rightarrow>
             setSceneSegment index
               (\<lambda>s. s\<lparr>sc_start := max 0 (sc_start startSegment + deltaTime),
                      sc_end := sc_end startSegment + deltaTime\<rparr>) e
         | ResizingStart _ _ _ \<Rightarrow>
             setSceneSegment index
               (\<lambda>s. s\<lparr>sc_start :=
                        max 0 (min (sc_start startSegment + deltaTime) (sc_end segment - 0.1))\<rparr>) e
         | ResizingEnd _ _ _ \<Rightarrow>
             setSceneSegment index
               (\<lambda>s. s\<lparr>sc_end :=
                        max (sc_start segment + 0.1) (sc_end startSegment + deltaTime)\<rparr>) e
         | Idle \<Rightarrow> e)"

text \<open>
  The \<^verbatim>\<open>onMouseDown\<close> handler of a segment: \<open>relativeX\<close> is the pointer's offset
  from the left edge of the element and \<open>segmentPixelWidth\<close> the element's width.
\<close>

definition scene_mousedown ::
  "SceneSegment \<Rightarrow> nat \<Rightarrow> real \<Rightarrow> real \<Rightarrow> real \<Rightarrow> editor \<Rightarrow> SceneSegmentDragState \<times> editor" where
  "scene_mousedown segment index clientX relativeX segmentPixelWidth e =
     (let startMouseX = clientX;
          startSegment = segment;
          edgeThreshold = 10;
          dragState =
            (if relativeX < edgeThreshold then ResizingStart index startMouseX startSegment
             else if relativeX > segmentPixelWidth - edgeThreshold
               then ResizingEnd index startMouseX startSegment
             else Moving index startMouseX startSegment)
      in (dragState, e\<lparr>selection := Some (SceneSelection index)\<rparr>))"

text \<open>The \<^verbatim>\<open>mouseup\<close> listener of a scene gesture.\<close>

definition scene_mouseup :: "SceneSegmentDragState \<times> editor \<Rightarrow> SceneSegmentDragState \<times> editor" where
  "scene_mouseup = (\<lambda>(dragState, e). (Idle, e))"

text \<open>
  One whole scene gesture on the row \<open>index\<close>, while the row stays where it is: at every
  \<^verbatim>\<open>mousemove\<close> the row's item is the element of the collection at \<open>index\<close>.
\<close>

definition scene_moves ::
  "SceneSegmentDragState \<Rightarrow> real \<Rightarrow> SceneSegment \<Rightarrow> nat \<Rightarrow> (real \<times> real) list \<Rightarrow>
     editor \<Rightarrow> editor" where
  "scene_moves dragState startMouseX startSegment index moves e =
     fold (\<lambda>(clientX, secsPerPixel) e'.
             scene_mousemove dragState startMouseX startSegment (sceneSegments e' ! index)
               index clientX secsPerPixel e') moves e"

definition scene_gesture ::
  "nat \<Rightarrow> real \<Rightarrow> real \<Rightarrow> real \<Rightarrow> (real \<times> real) list \<Rightarrow> editor \<Rightarrow>
     SceneSegmentDragState \<times> editor" where
  "scene_gesture index clientX relativeX segmentPixelWidth moves e =
     (let segment = sceneSegments e ! index in
      case scene_mousedown segment index clientX relativeX segmentPixelWidth e of
        (dragState, e') \<Rightarrow>
          scene_mouseup (dragState, scene_moves dragState clientX segment index moves e'))"



text \<open>
  \<^verbatim>\<open>addSceneSegment(mode)\<close>. The update goes through the store's
  \<^verbatim>\<open>produce\<close>, which runs its callback on an existing array only: where the array is
  missing the callback's \<^verbatim>\<open>if (!segments) segments = []\<close> is never reached, and nothing
  is added.
\<close>

definition addSceneSegment :: "SceneMode \<Rightarrow> editor \<Rightarrow> editor" where
  "addSceneSegment mode e =
     (let time = playbackTime e;
          newSegment = \<lparr>sc_start = time, sc_end = min (time + 2) (zoom e), sc_mode = mode\<rparr>
      in case timelineSceneSegments e of
           None \<Rightarrow> e
         | Some segments \<Rightarrow>
             e\<lparr>timelineSceneSegments := Some (sortScenes (segments @ [newSegment]))\<rparr>)"

section \<open>The segment invariant\<close>

text \<open>A segment starts at or after 0 and lasts at least the minimum duration.\<close>

definition minDuration :: real where
  "minDuration = 0.1"

definition valid_caption :: "caption_segment \<Rightarrow> bool" where
  "valid_caption s \<longleftrightarrow> 0 \<le> seg_start s \<and> seg_start s + minDuration \<le> seg_end s"

definition valid_scene :: "SceneSegment \<Rightarrow> bool" where
  "valid_scene s \<longleftrightarrow> 0 \<le> sc_start s \<and> sc_start s + minDuration \<le> sc_end s"

text \<open>Every segment of both collections satisfies it.\<close>

definition segments_valid :: "editor \<Rightarrow> bool" where
  "segments_valid e \<longleftrightarrow>
     (case caption_segments (captions e) of
        None \<Rightarrow> True
      | Some segments \<Rightarrow> list_all valid_caption segments)
     \<and> list_all valid_scene (sceneSegments e)"



section \<open>States for the scenarios\<close>

text \<open>Segments written as \<^verbatim>\<open>{id, start, end, text}\<close> and
  \<^verbatim>\<open>{start, end, mode}\<close>.\<close>

definition caption :: "string \<Rightarrow> real \<Rightarrow> real \<Rightarrow> string \<Rightarrow> caption_segment" where
  "caption i s t txt = \<lparr>seg_id = i, seg_start = s, seg_end = t, seg_text = txt\<rparr>"

definition scene :: "real \<Rightarrow> real \<Rightarrow> SceneMode \<Rightarrow> SceneSegment" where
  "scene s t m = \<lparr>sc_start = s, sc_end = t, sc_mode = m\<rparr>"

text \<open>An editor showing the given caption segments, and one showing the given scene
  segments, with the playhead at \<open>t\<close>, nothing selected and no timer pending.\<close>

definition caption_editor :: "caption_segment list \<Rightarrow> real \<Rightarrow> editor" where
  "caption_editor segments t =
     \<lparr>captions = Segments segments, timelineSceneSegments = Some [], selection = None,
      playbackTime = t, position = 0, zoom = 60, timers = [], emitted = []\<rparr>"

definition scene_editor :: "SceneSegment list \<Rightarrow> real \<Rightarrow> real \<Rightarrow> editor" where
  "scene_editor segments t z =
     \<lparr>captions = NoCaptions, timelineSceneSegments = Some segments, selection = None,
      playbackTime = t, position = 0, zoom = z, timers = [], emitted = []\<rparr>"

text \<open>A caption segment's view at rest: not dragging, not editing, showing \<open>txt\<close>.\<close>

definition idle_view :: "string \<Rightarrow> caption_view" where
  "idle_view txt = \<lparr>isDragging = None, isEditing = False, editText = txt, listeners = None\<rparr>"

text \<open>The same view while the inline editor is open with \<open>typed\<close> in its field.\<close>

definition editing_view :: "string \<Rightarrow> caption_view" where
  "editing_view typed = \<lparr>isDragging = None, isEditing = True, editText = typed, listeners = None\<rparr>"

section \<open>Auxiliary facts\<close>

lemmas scenario_defs = caption_def scene_def caption_editor_def scene_editor_def
  idle_view_def editing_view_def

text \<open>\<open>findIndex\<close> returns the first position that satisfies the predicate.\<close>

lemma findIndex_SomeD:
  "findIndex p xs = Some i \<Longrightarrow> i < length xs \<and> p (xs ! i) \<and> (\<forall>j<i. \<not> p (xs ! j))"
proof (induction xs arbitrary: i)
  case Nil
  then show ?case by simp
next
  case (Cons x xs)
  show ?case
  proof (cases "p x")
    case True
    with Cons.prems show ?thesis by simp
  next
    case False
    with Cons.prems obtain k where k: "findIndex p xs = Some k" "i = Suc k"
      by auto
    from Cons.IH [OF k(1)] False k(2) show ?thesis
      by (auto simp: less_Suc_eq_0_disj)
  qed
qed

lemma findIndex_None_iff: "findIndex p xs = None \<longleftrightarrow> (\<forall>x\<in>set xs. \<not> p x)"
  by (induction xs) auto


lemma handleMouseMove_found:
  assumes "caption_segments (captions e) = Some segs"
    and "findIndex (\<lambda>s. seg_id s = pid) segs = Some i"
  shows "handleMouseMove type x0 snap pid x spp e =
     e\<lparr>captions := Segments (segs[i :=
        (case type of
           DragStart \<Rightarrow> (segs ! i)\<lparr>seg_start :=
              max 0 (min (seg_start snap + (x - x0) * spp) (seg_end snap - 0.1))\<rparr>
         | DragEnd \<Rightarrow> (segs ! i)\<lparr>seg_end :=
              max (seg_start snap + 0.1) (seg_end snap + (x - x0) * spp)\<rparr>
         | DragMove \<Rightarrow> (segs ! i)\<lparr>seg_start := max 0 (seg_start snap + (x - x0) * spp),
              seg_end := max 0 (seg_start snap + (x - x0) * spp)
                           + (seg_end snap - seg_start snap)\<rparr>)])\<rparr>"
  using assms by (simp add: handleMouseMove_def Let_def split: drag_type.splits)

lemma handleMouseMove_stale:
  assumes "caption_segments (captions e) = Some segs"
    and "findIndex (\<lambda>s. seg_id s = pid) segs = None"
  shows "handleMouseMove type x0 snap pid x spp e = e"
  using assms by (simp add: handleMouseMove_def)



section \<open>Whole gestures\<close>

text \<open>
  What a gesture may change. A tick rewrites the element at the index it found and nothing
  else: the ids of the collection, in their order, and every other element stay as they
  are, and no tick schedules or emits a render refresh. The same holds for the whole
  gesture, whose pointer-down and pointer-up handlers do not touch the collections.
\<close>

lemma findIndex_map:
  "findIndex (\<lambda>s. f s = c) xs = findIndex (\<lambda>y. y = c) (map f xs)"
  by (induction xs) auto

lemma handleMouseMove_frame:
  assumes "caption_segments (captions e) = Some segs"
  shows "\<exists>segs'. caption_segments (captions (handleMouseMove type x0 snap pid x spp e)) = Some segs'
     \<and> map seg_id segs' = map seg_id segs
     \<and> (\<forall>k. findIndex (\<lambda>s. seg_id s = pid) segs \<noteq> Some k \<longrightarrow> segs' ! k = segs ! k)"
proof (cases "findIndex (\<lambda>s. seg_id s = pid) segs")
  case None
  with assms show ?thesis by (simp add: handleMouseMove_stale)
next
  case (Some i)
  from findIndex_SomeD [OF Some] have i: "i < length segs" by simp
  then have "map seg_id (segs[i := (segs ! i)\<lparr>seg_start := a\<rparr>]) = map seg_id segs"
    "map seg_id (segs[i := (segs ! i)\<lparr>seg_end := b\<rparr>]) = map seg_id segs"
    "map seg_id (segs[i := (segs ! i)\<lparr>seg_start := a, seg_end := b\<rparr>]) = map seg_id segs"
    for a b
    by (simp_all add: map_update list_update_same_conv)
  with Some i show ?thesis
    by (cases type) (simp_all add: handleMouseMove_found [OF assms Some])
qed

lemma caption_moves_frame:
  assumes "caption_segments (captions e) = Some segs"
  shows "\<exists>segs'. caption_segments (captions (snd (caption_moves pid moves (v, e)))) = Some segs'
     \<and> map seg_id segs' = map seg_id segs
     \<and> (\<forall>k. findIndex (\<lambda>s. seg_id s = pid) segs \<noteq> Some k \<longrightarrow> segs' ! k = segs ! k)
     \<and> fst (caption_moves pid moves (v, e)) = v
     \<and> timers (snd (caption_moves pid moves (v, e))) = timers e
     \<and> emitted (snd (caption_moves pid moves (v, e))) = emitted e"
  using assms
proof (induction moves arbitrary: e segs)
  case Nil
  then show ?case by (simp add: caption_moves_def)
next
  case (Cons m moves)
  obtain x spp where m: "m = (x, spp)" by (cases m)
  obtain e1 where e1: "document_mousemove pid x spp (v, e) = (v, e1)"
    by (cases "listeners v") (auto simp: document_mousemove_def)
  have "\<exists>segs1. caption_segments (captions e1) = Some segs1
     \<and> map seg_id segs1 = map seg_id segs
     \<and> (\<forall>k. findIndex (\<lambda>s. seg_id s = pid) segs \<noteq> Some k \<longrightarrow> segs1 ! k = segs ! k)"
  proof (cases "listeners v")
    case None
    with e1 Cons.prems show ?thesis by (simp add: document_mousemove_def)
  next
    case (Some c)
    obtain type x0 snap where c: "c = (type, x0, snap)" by (cases c)
    from e1 Some c have "e1 = handleMouseMove type x0 snap pid x spp e"
      by (simp add: document_mousemove_def)
    with handleMouseMove_frame [OF Cons.prems] show ?thesis by simp
  qed
  then obtain segs1 where s1: "caption_segments (captions e1) = Some segs1"
    and ids1: "map seg_id segs1 = map seg_id segs"
    and others1: "\<forall>k. findIndex (\<lambda>s. seg_id s = pid) segs \<noteq> Some k \<longrightarrow> segs1 ! k = segs ! k"
    by blast
  have te: "timers e1 = timers e \<and> emitted e1 = emitted e"
  proof (cases "listeners v")
    case None
    with e1 show ?thesis by (simp add: document_mousemove_def)
  next
    case (Some c)
    obtain type x0 snap where c: "c = (type, x0, snap)" by (cases c)
    from e1 Some c have "e1 = handleMouseMove type x0 snap pid x spp e"
      by (simp add: document_mousemove_def)
    then show ?thesis
      by (simp add: handleMouseMove_def Let_def split: option.splits)
  qed
  have same: "findIndex (\<lambda>s. seg_id s = pid) segs1 = findIndex (\<lambda>s. seg_id s = pid) segs"
    using ids1 by (simp add: findIndex_map [of seg_id])
  have step: "caption_moves pid (m # moves) (v, e) = caption_moves pid moves (v, e1)"
    using m e1 by (simp add: caption_moves_def)
  from Cons.IH [OF s1] same ids1 others1 te show ?case
    unfolding step by auto
qed

lemma scene_mousemove_frame:
  "length (sceneSegments (scene_mousemove d y0 ssnap row j y spp e)) = length (sceneSegments e)
   \<and> (\<forall>k. k \<noteq> j \<longrightarrow> sceneSegments (scene_mousemove d y0 ssnap row j y spp e) ! k = sceneSegments e ! k)
   \<and> timers (scene_mousemove d y0 ssnap row j y spp e) = timers e
   \<and> emitted (scene_mousemove d y0 ssnap row j y spp e) = emitted e
   \<and> captions (scene_mousemove d y0 ssnap row j y spp e) = captions e
   \<and> selection (scene_mousemove d y0 ssnap row j y spp e) = selection e"
  by (cases d)
     (auto simp: scene_mousemove_def setSceneSegment_def sceneSegments_def Let_def
        split: option.splits)

lemma scene_moves_frame:
  "length (sceneSegments (scene_moves d y0 ssnap j moves e)) = length (sceneSegments e)
   \<and> (\<forall>k. k \<noteq> j \<longrightarrow> sceneSegments (scene_moves d y0 ssnap j moves e) ! k = sceneSegments e ! k)
   \<and> timers (scene_moves d y0 ssnap j moves e) = timers e
   \<and> emitted (scene_moves d y0 ssnap j moves e) = emitted e
   \<and> captions (scene_moves d y0 ssnap j moves e) = captions e
   \<and> selection (scene_moves d y0 ssnap j moves e) = selection e"
proof (induction moves arbitrary: e)
  case Nil
  show ?case by (simp add: scene_moves_def)
next
  case (Cons m moves)
  obtain y spp where m: "m = (y, spp)" by (cases m)
  let ?e1 = "scene_mousemove d y0 ssnap (sceneSegments e ! j) j y spp e"
  have step: "scene_moves d y0 ssnap j (m # moves) e = scene_moves d y0 ssnap j moves ?e1"
    using m by (simp add: scene_moves_def)
  from Cons.IH [of ?e1] scene_mousemove_frame [of d y0 ssnap "sceneSegments e ! j" j y spp e]
  show ?case unfolding step by simp
qed


lemma handleMouseMove_effects:
  "timers (handleMouseMove type x0 snap pid x spp e) = timers e
   \<and> emitted (handleMouseMove type x0 snap pid x spp e) = emitted e
   \<and> selection (handleMouseMove type x0 snap pid x spp e) = selection e
   \<and> sceneSegments (handleMouseMove type x0 snap pid x spp e) = sceneSegments e"
  by (simp add: handleMouseMove_def sceneSegments_def Let_def split: option.splits)

lemma caption_moves_effects:
  "fst (caption_moves pid moves (v, e)) = v
   \<and> timers (snd (caption_moves pid moves (v, e))) = timers e
   \<and> emitted (snd (caption_moves pid moves (v, e))) = emitted e"
proof (induction moves arbitrary: e)
  case Nil
  show ?case by (simp add: caption_moves_def)
next
  case (Cons m moves)
  obtain x spp where m: "m = (x, spp)" by (cases m)
  obtain e1 where e1: "document_mousemove pid x spp (v, e) = (v, e1)"
    and te: "timers e1 = timers e" "emitted e1 = emitted e"
    by (cases "listeners v") (auto simp: document_mousemove_def handleMouseMove_effects)
  have step: "caption_moves pid (m # moves) (v, e) = caption_moves pid moves (v, e1)"
    using m e1 by (simp add: caption_moves_def)
  from Cons.IH [of e1] te show ?case unfolding step by simp
qed

lemma caption_gesture_frame:
  assumes "caption_segments (captions e) = Some segs"
  shows "\<exists>segs'. caption_segments (captions (snd (caption_gesture segment type downX moves (v, e))))
        = Some segs'
     \<and> map seg_id segs' = map seg_id segs
     \<and> (\<forall>k. findIndex (\<lambda>s. seg_id s = seg_id segment) segs \<noteq> Some k \<longrightarrow> segs' ! k = segs ! k)"
proof -
  obtain v1 e1 where d: "handleMouseDown segment type downX (v, e) = (v1, e1)"
    by (cases "handleMouseDown segment type downX (v, e)")
  then have c1: "captions e1 = captions e"
    by (auto simp: handleMouseDown_def onSelect_def scheduleRefresh_def split: if_splits)
  obtain v2 e2 where m: "caption_moves (seg_id segment) moves (v1, e1) = (v2, e2)"
    by (cases "caption_moves (seg_id segment) moves (v1, e1)")
  have "captions (snd (document_mouseup (v2, e2))) = captions e2"
    by (simp add: document_mouseup_def handleMouseUp_def scheduleRefresh_def split: option.splits)
  moreover from caption_moves_frame [of e1 segs "seg_id segment" moves v1] assms c1 m
  have "\<exists>segs'. caption_segments (captions e2) = Some segs'
     \<and> map seg_id segs' = map seg_id segs
     \<and> (\<forall>k. findIndex (\<lambda>s. seg_id s = seg_id segment) segs \<noteq> Some k \<longrightarrow> segs' ! k = segs ! k)"
    by auto
  ultimately show ?thesis by (simp add: caption_gesture_def d m)
qed

lemma caption_gesture_timers:
  assumes "\<not> isEditing v"
  shows "timers (snd (caption_gesture segment type downX moves (v, e))) = timers e @ [100, 100]
     \<and> emitted (snd (caption_gesture segment type downX moves (v, e))) = emitted e"
proof -
  let ?v1 = "v\<lparr>isDragging := Some type, listeners := Some (type, downX, segment)\<rparr>"
  let ?e1 = "onSelect (seg_id segment) e"
  have d: "handleMouseDown segment type downX (v, e) = (?v1, ?e1)"
    using assms by (simp add: handleMouseDown_def)
  obtain e2 where m: "caption_moves (seg_id segment) moves (?v1, ?e1) = (?v1, e2)"
    and te: "timers e2 = timers ?e1" "emitted e2 = emitted ?e1"
    using caption_moves_effects [of "seg_id segment" moves ?v1 ?e1]
    by (cases "caption_moves (seg_id segment) moves (?v1, ?e1)") auto
  have u: "document_mouseup (?v1, e2) = handleMouseUp (?v1, e2)"
    by (simp add: document_mouseup_def)
  have g: "caption_gesture segment type downX moves (v, e) = handleMouseUp (?v1, e2)"
    by (simp only: caption_gesture_def d m u)
  from te show ?thesis
    by (simp add: g handleMouseUp_def scheduleRefresh_def onSelect_def)
qed

lemma scene_gesture_frame:
  "length (sceneSegments (snd (scene_gesture j downX relX w moves e))) = length (sceneSegments e)
   \<and> (\<forall>k. k \<noteq> j \<longrightarrow> sceneSegments (snd (scene_gesture j downX relX w moves e)) ! k = sceneSegments e ! k)
   \<and> timers (snd (scene_gesture j downX relX w moves e)) = timers e
   \<and> emitted (snd (scene_gesture j downX relX w moves e)) = emitted e
   \<and> fst (scene_gesture j downX relX w moves e) = Idle"
proof -
  obtain d e1 where d: "scene_mousedown (sceneSegments e ! j) j downX relX w e = (d, e1)"
    by (cases "scene_mousedown (sceneSegments e ! j) j downX relX w e")
  then have e1: "sceneSegments e1 = sceneSegments e" "timers e1 = timers e" "emitted e1 = emitted e"
    by (auto simp: scene_mousedown_def sceneSegments_def Let_def)
  from scene_moves_frame [of d downX "sceneSegments e ! j" j moves e1] e1 d
  show ?thesis by (simp add: scene_gesture_def scene_mouseup_def Let_def)
qed

lemma sort_key_append_last:
  fixes f :: "'a \<Rightarrow> real"
  assumes "sorted (map f xs)" and "\<forall>x\<in>set xs. f x \<le> f y"
  shows "sort_key f (xs @ [y]) = xs @ [y]"
  using assms by (intro sort_key_id_if_sorted) (simp add: sorted_append)




section \<open>Resizing\<close>




section \<open>Moving\<close>

text \<open>
  What one move tick writes. The caption handler derives the end from the new start and
  the snapshot's duration; the scene handler floors the start at 0 and shifts the end by
  the whole delta.
\<close>

lemma caption_move_tick:
  assumes "caption_segments (captions e) = Some segs"
    and "findIndex (\<lambda>s. seg_id s = pid) segs = Some i"
  shows "\<exists>segs'. caption_segments (captions (handleMouseMove DragMove x0 snap pid x spp e)) = Some segs'
     \<and> seg_start (segs' ! i) = max 0 (seg_start snap + (x - x0) * spp)
     \<and> seg_end (segs' ! i) - seg_start (segs' ! i) = seg_end snap - seg_start snap"
  using findIndex_SomeD [OF assms(2)] by (simp add: handleMouseMove_found [OF assms])

lemma scene_move_tick:
  assumes "j < length (sceneSegments e)"
  shows "sc_start (sceneSegments (scene_mousemove (Moving j y0 snap) y0 snap row j y spp e) ! j)
           = max 0 (sc_start snap + (y - y0) * spp)
     \<and> sc_end (sceneSegments (scene_mousemove (Moving j y0 snap) y0 snap row j y spp e) ! j)
           = sc_end snap + (y - y0) * spp"
  using assms
  by (auto simp: scene_mousemove_def setSceneSegment_def sceneSegments_def Let_def
      split: option.splits)

text \<open>
  C1. Every move tick sets \<open>start = max 0 (snapshotStart + deltaPixels * secsPerPixel)\<close>
  and moves the end with it, so that the duration \<open>end - start\<close> is preserved on every
  tick. The caption handler does so (\<open>caption_move_tick\<close>). The scene handler does not
  once the floor applies: on the scene segment \<open>{start: 1, end: 3}\<close> a move by
  \<open>-2\<close> pixels at one second per pixel writes \<open>{start: 0, end: 1}\<close>, of duration
  1 instead of 2.
\<close>

theorem C1_scene_move_changes_duration:
  "sceneSegments (scene_mousemove (Moving 0 100 (scene 1 3 Default)) 100 (scene 1 3 Default)
       (scene 1 3 Default) 0 98 1 (scene_editor [scene 1 3 Default] 0 60))
     = [scene 0 1 Default]
   \<and> sc_end (scene 0 1 Default) - sc_start (scene 0 1 Default) = 1
   \<and> sc_end (scene 1 3 Default) - sc_start (scene 1 3 Default) = 2"
  by (simp add: scene_mousemove_def setSceneSegment_def sceneSegments_def scenario_defs)

section \<open>Stale references\<close>

text \<open>
  A caption gesture whose segment id is no longer in the collection writes nothing, on that
  tick and on every later one.
\<close>

lemma caption_moves_stale:
  assumes "caption_segments (captions e) = Some segs"
    and "findIndex (\<lambda>s. seg_id s = pid) segs = None"
  shows "caption_moves pid moves (v, e) = (v, e)"
proof (induction moves)
  case Nil
  show ?case by (simp add: caption_moves_def)
next
  case (Cons m moves)
  obtain x spp where m: "m = (x, spp)" by (cases m)
  have "document_mousemove pid x spp (v, e) = (v, e)"
    by (simp add: document_mousemove_def handleMouseMove_stale [OF assms] split: option.splits)
  with Cons m show ?case by (simp add: caption_moves_def)
qed

text \<open>
  C7. When the segment a gesture refers to is no longer in the collection, no tick of the
  gesture writes, and no segment other than the original target is ever modified. The
  caption handler looks its segment up by id and returns when it is missing
  (\<open>handleMouseMove_stale\<close>, \<open>caption_moves_stale\<close>). The scene handler writes
  at the row's index without any check: a move gesture started on the first of the
  segments \<open>{0, 2, default}\<close>, \<open>{5, 8, cameraOnly}\<close>, whose target is then
  removed, overwrites at its next tick the segment that took index 0.
\<close>

theorem C7_scene_tick_after_deletion:
  "sceneSegments (scene_mousemove (Moving 0 100 (scene 0 2 Default)) 100 (scene 0 2 Default)
       (scene 0 2 Default) 0 101 1 (scene_editor [scene 5 8 CameraOnly] 0 60))
     = [scene 1 3 CameraOnly]"
  by (simp add: scene_mousemove_def setSceneSegment_def sceneSegments_def scenario_defs)

section \<open>The inline text editor\<close>

text \<open>
  C10. Committing a text edit changes the text of the edited segment only: the ids, starts
  and ends of all segments are as before, in the same order, every segment other than the
  edited one (the first with the row's id) is unchanged, and the scene segments and the
  selection are untouched.
\<close>

theorem C10_commit_changes_text_only:
  assumes "caption_segments (captions e) = Some segs"
  shows "\<exists>segs'. caption_segments (captions (snd (saveEdit pid (v, e)))) = Some segs'
     \<and> map seg_id segs' = map seg_id segs
     \<and> map seg_start segs' = map seg_start segs
     \<and> map seg_end segs' = map seg_end segs
     \<and> (\<forall>k. findIndex (\<lambda>s. seg_id s = pid) segs \<noteq> Some k \<longrightarrow> segs' ! k = segs ! k)
     \<and> (\<forall>k. findIndex (\<lambda>s. seg_id s = pid) segs = Some k \<longrightarrow>
            segs' ! k = (segs ! k)\<lparr>seg_text := editText v\<rparr>)
     \<and> sceneSegments (snd (saveEdit pid (v, e))) = sceneSegments e
     \<and> selection (snd (saveEdit pid (v, e))) = selection e"
proof (cases "findIndex (\<lambda>s. seg_id s = pid) segs")
  case None
  with assms show ?thesis by (simp add: saveEdit_def sceneSegments_def)
next
  case (Some i)
  from findIndex_SomeD [OF Some] have i: "i < length segs" by simp
  have "map seg_id (segs[i := (segs ! i)\<lparr>seg_text := editText v\<rparr>]) = map seg_id segs"
       "map seg_start (segs[i := (segs ! i)\<lparr>seg_text := editText v\<rparr>]) = map seg_start segs"
       "map seg_end (segs[i := (segs ! i)\<lparr>seg_text := editText v\<rparr>]) = map seg_end segs"
    using i by (simp_all add: map_update list_update_same_conv)
  with assms Some i show ?thesis
    by (simp add: saveEdit_def scheduleRefresh_def sceneSegments_def)
qed

theorem C10_commit_changes_text_only_witness:
  "caption_segments (captions (caption_editor [caption ''A'' 0 2 ''hi'', caption ''B'' 5 8 ''yo''] 0))
      = Some [caption ''A'' 0 2 ''hi'', caption ''B'' 5 8 ''yo'']
   \<and> findIndex (\<lambda>s. seg_id s = ''B'') [caption ''A'' 0 2 ''hi'', caption ''B'' 5 8 ''yo''] = Some 1
   \<and> findIndex (\<lambda>s. seg_id s = ''B'') [caption ''A'' 0 2 ''hi'', caption ''B'' 5 8 ''yo''] \<noteq> Some 0
   \<and> caption_segments (captions (snd (saveEdit ''B''
          (editing_view ''new'', caption_editor [caption ''A'' 0 2 ''hi'', caption ''B'' 5 8 ''yo''] 0))))
      = Some [caption ''A'' 0 2 ''hi'', caption ''B'' 5 8 ''new'']"
proof -
  let ?segs = "[caption ''A'' 0 2 ''hi'', caption ''B'' 5 8 ''yo'']"
  let ?e = "caption_editor ?segs 0"
  have h: "caption_segments (captions ?e) = Some ?segs"
    by (simp add: scenario_defs)
  have f: "findIndex (\<lambda>s. seg_id s = ''B'') ?segs = Some 1"
    by (simp add: scenario_defs)
  from C10_commit_changes_text_only [OF h, of "''B''" "editing_view ''new''"]
  obtain segs' where s: "caption_segments (captions (snd (saveEdit ''B'' (editing_view ''new'', ?e)))) = Some segs'"
    and ids: "map seg_id segs' = map seg_id ?segs"
    and other: "\<forall>k. findIndex (\<lambda>s. seg_id s = ''B'') ?segs \<noteq> Some k \<longrightarrow> segs' ! k = ?segs ! k"
    and tgt: "\<forall>k. findIndex (\<lambda>s. seg_id s = ''B'') ?segs = Some k \<longrightarrow>
            segs' ! k = (?segs ! k)\<lparr>seg_text := editText (editing_view ''new'')\<rparr>"
    by blast
  from ids have len: "length segs' = 2"
    by (metis length_map length_Cons list.size(3) numeral_2_eq_2)
  from other f have a: "segs' ! 0 = caption ''A'' 0 2 ''hi''" by simp
  from tgt f have b: "segs' ! Suc 0 = caption ''B'' 5 8 ''new''"
    by (simp add: scenario_defs)
  from len a b have "segs' = [caption ''A'' 0 2 ''hi'', caption ''B'' 5 8 ''new'']"
    by (auto simp: list_eq_iff_nth_eq less_Suc_eq numeral_2_eq_2)
  with s h f show ?thesis by simp
qed

text \<open>
  An editing session keeps the editor open with the last value typed in its field (the
  stored text when nothing was typed) and writes nothing into the captions.
\<close>

lemma edit_session_snoc:
  "edit_session enter segment (vals @ [val]) s
     = run_effects segment True (onInput val (edit_session enter segment vals s))"
  by (simp add: edit_session_def)

lemma edit_session_state:
  assumes "enter = handleDoubleClick segment
      \<or> (enter = segment_onClick segment True \<and> \<not> isEditing v)"
  shows "isEditing (fst (edit_session enter segment vals (v, e)))
     \<and> editText (fst (edit_session enter segment vals (v, e))) = last (seg_text segment # vals)
     \<and> captions (snd (edit_session enter segment vals (v, e))) = captions e"
proof (induction vals rule: rev_induct)
  case Nil
  from assms show ?case
    by (auto simp: edit_session_def run_effects_def handleDoubleClick_def segment_onClick_def
        effect_syncText_def effect_stopEditing_def scheduleRefresh_def)
next
  case (snoc val vals)
  obtain v1 e1 where s: "edit_session enter segment vals (v, e) = (v1, e1)"
    by (cases "edit_session enter segment vals (v, e)")
  with snoc have "isEditing v1" "captions e1 = captions e" by simp_all
  then show ?case
    by (simp add: edit_session_snoc s run_effects_def onInput_def effect_syncText_def
        effect_stopEditing_def scheduleRefresh_def)
qed

text \<open>
  C9. In an editing session on a caption, opened by a double click or by a click on the
  selected segment and followed by any typing: \<^verbatim>\<open>Escape\<close> cancels, the captions are
  those from before the session began, editing ends, and the field goes back to the stored
  text when the effects run; \<^verbatim>\<open>Enter\<close> and losing focus commit, the last value typed
  (the stored text when nothing was typed) becomes the text of the edited segment in the
  store, and editing ends.
\<close>

theorem C9_escape_cancels_enter_and_blur_commit:
  assumes "enter = handleDoubleClick segment
      \<or> (enter = segment_onClick segment True \<and> \<not> isEditing v)"
  shows "captions (snd (onKeyDown (seg_id segment) ''Escape''
            (edit_session enter segment vals (v, e)))) = captions e
     \<and> \<not> isEditing (fst (onKeyDown (seg_id segment) ''Escape''
            (edit_session enter segment vals (v, e))))
     \<and> editText (fst (run_effects segment True (onKeyDown (seg_id segment) ''Escape''
            (edit_session enter segment vals (v, e))))) = seg_text segment
     \<and> (caption_segments (captions e) = Some segs
          \<and> findIndex (\<lambda>s. seg_id s = seg_id segment) segs = Some i \<longrightarrow>
         caption_segments (captions (snd (onKeyDown (seg_id segment) ''Enter''
            (edit_session enter segment vals (v, e)))))
           = Some (segs[i := (segs ! i)\<lparr>seg_text := last (seg_text segment # vals)\<rparr>])
       \<and> caption_segments (captions (snd (onBlur (seg_id segment)
            (edit_session enter segment vals (v, e)))))
           = Some (segs[i := (segs ! i)\<lparr>seg_text := last (seg_text segment # vals)\<rparr>])
       \<and> \<not> isEditing (fst (onKeyDown (seg_id segment) ''Enter''
            (edit_session enter segment vals (v, e))))
       \<and> \<not> isEditing (fst (onBlur (seg_id segment) (edit_session enter segment vals (v, e)))))"
proof -
  obtain v1 e1 where s: "edit_session enter segment vals (v, e) = (v1, e1)"
    by (cases "edit_session enter segment vals (v, e)")
  with edit_session_state [OF assms, of vals e]
  have "isEditing v1" "editText v1 = last (seg_text segment # vals)" "captions e1 = captions e"
    by simp_all
  then show ?thesis
    unfolding s
    by (simp add: onKeyDown_def onBlur_def saveEdit_def scheduleRefresh_def run_effects_def
        effect_syncText_def effect_stopEditing_def)
qed

theorem C9_escape_cancels_enter_and_blur_commit_witness:
  "caption_segments (captions (caption_editor [caption ''A'' 0 2 ''hi''] 0)) = Some [caption ''A'' 0 2 ''hi'']
   \<and> findIndex (\<lambda>s. seg_id s = seg_id (caption ''A'' 0 2 ''hi'')) [caption ''A'' 0 2 ''hi''] = Some 0
   \<and> \<not> isEditing (idle_view ''hi'')
   \<and> caption_segments (captions (snd (onKeyDown ''A'' ''Escape''
          (edit_session (handleDoubleClick (caption ''A'' 0 2 ''hi'')) (caption ''A'' 0 2 ''hi'')
             [''n'', ''ne'', ''new''] (idle_view ''hi'', caption_editor [caption ''A'' 0 2 ''hi''] 0)))))
       = Some [caption ''A'' 0 2 ''hi'']
   \<and> caption_segments (captions (snd (onKeyDown ''A'' ''Enter''
          (edit_session (handleDoubleClick (caption ''A'' 0 2 ''hi'')) (caption ''A'' 0 2 ''hi'')
             [''n'', ''ne'', ''new''] (idle_view ''hi'', caption_editor [caption ''A'' 0 2 ''hi''] 0)))))
       = Some [caption ''A'' 0 2 ''new'']
   \<and> caption_segments (captions (snd (onBlur ''A''
          (edit_session (segment_onClick (caption ''A'' 0 2 ''hi'') True) (caption ''A'' 0 2 ''hi'')
             [''n'', ''ne'', ''new''] (idle_view ''hi'', caption_editor [caption ''A'' 0 2 ''hi''] 0)))))
       = Some [caption ''A'' 0 2 ''new'']"
proof -
  let ?A = "caption ''A'' 0 2 ''hi''"
  let ?segs = "[?A]"
  let ?e = "caption_editor ?segs 0"
  let ?v = "idle_view ''hi''"
  let ?vals = "[''n'', ''ne'', ''new'']"
  have h: "caption_segments (captions ?e) = Some ?segs"
    by (simp add: scenario_defs)
  have f: "findIndex (\<lambda>s. seg_id s = seg_id ?A) ?segs = Some 0"
    by simp
  have n: "\<not> isEditing ?v" by (simp add: scenario_defs)
  have id: "seg_id ?A = ''A''" by (simp add: scenario_defs)
  have u: "?segs[0 := (?segs ! 0)\<lparr>seg_text := last (seg_text ?A # ?vals)\<rparr>]
             = [caption ''A'' 0 2 ''new'']"
    by (simp add: scenario_defs)
  have d: "handleDoubleClick ?A = handleDoubleClick ?A
      \<or> (handleDoubleClick ?A = segment_onClick ?A True \<and> \<not> isEditing ?v)"
    by simp
  have c: "segment_onClick ?A True = handleDoubleClick ?A
      \<or> (segment_onClick ?A True = segment_onClick ?A True \<and> \<not> isEditing ?v)"
    using n by simp
  from C9_escape_cancels_enter_and_blur_commit [OF d, of ?vals ?e ?segs 0] h f
  have a: "caption_segments (captions (snd (onKeyDown ''A'' ''Escape''
          (edit_session (handleDoubleClick ?A) ?A ?vals (?v, ?e))))) = Some ?segs"
    and b: "caption_segments (captions (snd (onKeyDown ''A'' ''Enter''
          (edit_session (handleDoubleClick ?A) ?A ?vals (?v, ?e))))) = Some [caption ''A'' 0 2 ''new'']"
    unfolding u id by simp_all
  from C9_escape_cancels_enter_and_blur_commit [OF c, of ?vals ?e ?segs 0] h f
  have b2: "caption_segments (captions (snd (onBlur ''A''
          (edit_session (segment_onClick ?A True) ?A ?vals (?v, ?e))))) = Some [caption ''A'' 0 2 ''new'']"
    unfolding u id by simp
  from h f n a b b2 show ?thesis by blast
qed

section \<open>The viewport transform\<close>



section \<open>Ordering of the collection\<close>

text \<open>
  C3, as the claim states it: a move gesture that takes the first caption past the second
  ends with the collection in its old sequence, which is no longer ascending by start.
\<close>

theorem C3_gesture_leaves_moved_segment_in_place:
  "caption_segments (captions (snd (caption_gesture (caption ''A'' 0 3 ''a'') DragMove 0 [(6, 1)]
      (idle_view ''a'', caption_editor [caption ''A'' 0 3 ''a'', caption ''B'' 5 8 ''b''] 0))))
     = Some [caption ''A'' 6 9 ''a'', caption ''B'' 5 8 ''b'']
   \<and> \<not> sorted (map seg_start [caption ''A'' 6 9 ''a'', caption ''B'' 5 8 ''b''])"
  by (simp add: caption_gesture_def caption_moves_def handleMouseDown_def onSelect_def
      scheduleRefresh_def document_mousemove_def document_mouseup_def handleMouseMove_def
      handleMouseUp_def scenario_defs)

text \<open>
  C3. Pointer-up does not sort. The pointer-up handlers of both tracks leave the
  collections as they are, and a whole drag gesture changes the dragged segment in place:
  the ids keep their order and every other position keeps its segment, so a segment moved
  past a sibling leaves the collection unsorted. The sort that the add actions apply
  yields a collection ascending by start, a permutation of its input that keeps segments
  of equal start in their order, and returns an ascending collection as it is.
\<close>

theorem C3_no_sort_at_pointer_up:
  "captions (snd (handleMouseUp (v, e))) = captions e
   \<and> sceneSegments (snd (scene_mouseup (d, e))) = sceneSegments e
   \<and> (caption_segments (captions e) = Some segs \<longrightarrow>
        (\<exists>segs'. caption_segments
                   (captions (snd (caption_gesture segment type downX moves (v, e)))) = Some segs'
           \<and> map seg_id segs' = map seg_id segs
           \<and> (\<forall>k. findIndex (\<lambda>s. seg_id s = seg_id segment) segs \<noteq> Some k
                  \<longrightarrow> segs' ! k = segs ! k)))
   \<and> length (sceneSegments (snd (scene_gesture j sx relX w smoves e))) = length (sceneSegments e)
   \<and> (\<forall>k. k \<noteq> j \<longrightarrow>
          sceneSegments (snd (scene_gesture j sx relX w smoves e)) ! k = sceneSegments e ! k)
   \<and> sorted (map seg_start (sortCaptions segs))
   \<and> mset (sortCaptions segs) = mset segs
   \<and> filter (\<lambda>s. seg_start s = t) (sortCaptions segs) = filter (\<lambda>s. seg_start s = t) segs
   \<and> (sorted (map seg_start segs) \<longrightarrow> sortCaptions segs = segs)
   \<and> sorted (map sc_start (sortScenes scs))
   \<and> mset (sortScenes scs) = mset scs
   \<and> filter (\<lambda>s. sc_start s = t) (sortScenes scs) = filter (\<lambda>s. sc_start s = t) scs
   \<and> (sorted (map sc_start scs) \<longrightarrow> sortScenes scs = scs)"
  using caption_gesture_frame [of e segs segment type downX moves v]
    scene_gesture_frame [of j sx relX w smoves e]
  by (simp add: handleMouseUp_def scheduleRefresh_def scene_mouseup_def sortCaptions_def
      sortScenes_def sort_key_stable sort_key_id_if_sorted)

theorem C3_no_sort_at_pointer_up_witness:
  "caption_segments (captions (caption_editor [caption ''A'' 0 3 ''a'', caption ''B'' 5 8 ''b''] 0))
      = Some [caption ''A'' 0 3 ''a'', caption ''B'' 5 8 ''b'']
   \<and> findIndex (\<lambda>s. seg_id s = seg_id (caption ''A'' 0 3 ''a''))
        [caption ''A'' 0 3 ''a'', caption ''B'' 5 8 ''b''] \<noteq> Some 1
   \<and> (1::nat) \<noteq> 0
   \<and> sorted (map seg_start [caption ''A'' 0 3 ''a'', caption ''B'' 5 8 ''b''])
   \<and> sorted (map sc_start [scene 0 2 Default, scene 5 8 CameraOnly])
   \<and> (\<exists>segs'. caption_segments (captions (snd (caption_gesture (caption ''A'' 0 3 ''a'') DragMove 0
            [(6, 1)] (idle_view ''a'',
               caption_editor [caption ''A'' 0 3 ''a'', caption ''B'' 5 8 ''b''] 0)))) = Some segs'
         \<and> map seg_id segs' = [''A'', ''B'']
         \<and> segs' ! 1 = caption ''B'' 5 8 ''b'')
   \<and> sortCaptions [caption ''A'' 0 3 ''a'', caption ''B'' 5 8 ''b'']
        = [caption ''A'' 0 3 ''a'', caption ''B'' 5 8 ''b'']
   \<and> sortScenes [scene 0 2 Default, scene 5 8 CameraOnly]
        = [scene 0 2 Default, scene 5 8 CameraOnly]"
proof -
  let ?A = "caption ''A'' 0 3 ''a''"
  let ?segs = "[?A, caption ''B'' 5 8 ''b'']"
  let ?scs = "[scene 0 2 Default, scene 5 8 CameraOnly]"
  let ?e = "caption_editor ?segs 0"
  have h1: "caption_segments (captions ?e) = Some ?segs" by (simp add: scenario_defs)
  have h2: "findIndex (\<lambda>s. seg_id s = seg_id ?A) ?segs \<noteq> Some 1" by (simp add: scenario_defs)
  have h3: "(1::nat) \<noteq> 0" by simp
  have h4: "sorted (map seg_start ?segs)" by (simp add: scenario_defs)
  have h5: "sorted (map sc_start ?scs)" by (simp add: scenario_defs)
  note t = C3_no_sort_at_pointer_up [of "idle_view ''a''" ?e Idle ?segs ?A DragMove 0 "[(6, 1)]"
      0 0 0 0 "[]" 0 ?scs]
  from t h1 obtain segs' where
    "caption_segments (captions (snd (caption_gesture ?A DragMove 0 [(6, 1)] (idle_view ''a'', ?e))))
       = Some segs'"
    "map seg_id segs' = map seg_id ?segs"
    "\<forall>k. findIndex (\<lambda>s. seg_id s = seg_id ?A) ?segs \<noteq> Some k \<longrightarrow> segs' ! k = ?segs ! k"
    by blast
  with h2 have g: "\<exists>segs'. caption_segments (captions (snd (caption_gesture ?A DragMove 0 [(6, 1)]
           (idle_view ''a'', ?e)))) = Some segs'
         \<and> map seg_id segs' = [''A'', ''B''] \<and> segs' ! 1 = caption ''B'' 5 8 ''b''"
    by (auto simp: scenario_defs)
  from t h4 have s1: "sortCaptions ?segs = ?segs" by blast
  from t h5 have s2: "sortScenes ?scs = ?scs" by blast
  from h1 h2 h3 h4 h5 g s1 s2 show ?thesis by blast
qed

section \<open>Render refresh\<close>

text \<open>
  C4, as the claim states it: a completed scene gesture that has changed the store
  schedules no render refresh and emits none.
\<close>

theorem C4_scene_gesture_schedules_no_refresh:
  "sceneSegments (snd (scene_gesture 0 100 50 200 [(101, 1)] (scene_editor [scene 0 2 Default] 0 60)))
      = [scene 1 3 Default]
   \<and> timers (snd (scene_gesture 0 100 50 200 [(101, 1)] (scene_editor [scene 0 2 Default] 0 60))) = []
   \<and> emitted (snd (scene_gesture 0 100 50 200 [(101, 1)] (scene_editor [scene 0 2 Default] 0 60))) = []"
  by (simp add: scene_gesture_def scene_mousedown_def scene_moves_def scene_mousemove_def
      setSceneSegment_def sceneSegments_def scene_mouseup_def scenario_defs)

text \<open>
  C4. The pointer-up handler of a caption segment schedules exactly one render refresh,
  100 ms later, emits nothing itself and leaves the captions as the ticks wrote them; a
  whole caption gesture schedules two, one at pointer-down (through the selection) and
  one at pointer-up, and emits nothing while it runs. The \<^verbatim>\<open>onMouseUp\<close> handler of
  the caption track schedules one more when the event reaches it. A scene gesture schedules
  none. A refresh is emitted only when its timer callback runs: it then carries the frame
  number \<open>\<lfloor>playbackTime * FPS\<rfloor>\<close> of that moment and changes no segment.
\<close>

theorem C4_refresh_requests_of_a_gesture:
  "timers (snd (handleMouseUp (v, e))) = timers e @ [100]
   \<and> emitted (snd (handleMouseUp (v, e))) = emitted e
   \<and> captions (snd (handleMouseUp (v, e))) = captions e
   \<and> (\<not> isEditing v \<longrightarrow>
         timers (snd (caption_gesture segment type downX moves (v, e))) = timers e @ [100, 100]
       \<and> emitted (snd (caption_gesture segment type downX moves (v, e))) = emitted e)
   \<and> timers (track_onMouseUp e) = timers e @ [150]
   \<and> emitted (track_onMouseUp e) = emitted e
   \<and> captions (track_onMouseUp e) = captions e
   \<and> timers (snd (scene_gesture j sx relX w smoves e)) = timers e
   \<and> emitted (snd (scene_gesture j sx relX w smoves e)) = emitted e
   \<and> (i < length (timers e) \<longrightarrow>
         emitted (runTimer FPS i e) = emitted e @ [\<lfloor>playbackTime e * FPS\<rfloor>]
       \<and> Suc (length (timers (runTimer FPS i e))) = length (timers e)
       \<and> captions (runTimer FPS i e) = captions e
       \<and> sceneSegments (runTimer FPS i e) = sceneSegments e)"
  using caption_gesture_timers [of v segment type downX moves e]
    scene_gesture_frame [of j sx relX w smoves e]
  by (auto simp: handleMouseUp_def scheduleRefresh_def track_onMouseUp_def runTimer_def
      sceneSegments_def)

theorem C4_refresh_requests_of_a_gesture_witness:
  "\<not> isEditing (idle_view ''a'')
   \<and> timers (snd (caption_gesture (caption ''A'' 0 3 ''a'') DragMove 0 [(6, 1)]
        (idle_view ''a'', caption_editor [caption ''A'' 0 3 ''a''] 0))) = [100, 100]
   \<and> emitted (snd (caption_gesture (caption ''A'' 0 3 ''a'') DragMove 0 [(6, 1)]
        (idle_view ''a'', caption_editor [caption ''A'' 0 3 ''a''] 0))) = []
   \<and> (0::nat) < length (timers ((caption_editor [caption ''A'' 6 9 ''a''] 1)\<lparr>timers := [100]\<rparr>))
   \<and> emitted (runTimer 30 0 ((caption_editor [caption ''A'' 6 9 ''a''] 1)\<lparr>timers := [100]\<rparr>)) = [30]"
proof -
  let ?A = "caption ''A'' 0 3 ''a''"
  let ?e = "caption_editor [?A] 0"
  let ?e2 = "(caption_editor [caption ''A'' 6 9 ''a''] 1)\<lparr>timers := [100]\<rparr>"
  have h1: "\<not> isEditing (idle_view ''a'')" by (simp add: scenario_defs)
  have h2: "(0::nat) < length (timers ?e2)" by (simp add: scenario_defs)
  from C4_refresh_requests_of_a_gesture
         [of "idle_view ''a''" ?e ?A DragMove 0 "[(6, 1)]" 0 0 0 0 "[]" 0 30] h1
  have a: "timers (snd (caption_gesture ?A DragMove 0 [(6, 1)] (idle_view ''a'', ?e))) = [100, 100]
      \<and> emitted (snd (caption_gesture ?A DragMove 0 [(6, 1)] (idle_view ''a'', ?e))) = []"
    by (simp add: scenario_defs)
  from C4_refresh_requests_of_a_gesture
         [of "idle_view ''a''" ?e2 ?A DragMove 0 "[]" 0 0 0 0 "[]" 0 30] h2
  have b: "emitted (runTimer 30 0 ?e2) = [30]"
    by (simp add: scenario_defs)
  from h1 h2 a b show ?thesis by blast
qed

section \<open>The segment invariant under the mutations\<close>

text \<open>
  C5. Every mutation keeps, for every segment, the invariant \<open>end > start\<close> with the
  minimum duration. Adding a scene segment does not: the end of the new segment is capped
  by the viewport's zoom, \<^verbatim>\<open>Math.min(time + 2, zoom)\<close>, so with the playhead at 5 and a
  zoom of 3 the collection \<open>[{0, 2}]\<close>, all valid, becomes \<open>[{0, 2}, {5, 3}]\<close>,
  whose new segment ends before it starts. Adding a caption at the same playhead stores
  \<open>{5, 7}\<close>.
\<close>

theorem C5_scene_add_beyond_zoom:
  "segments_valid (scene_editor [scene 0 2 Default] 5 3)
   \<and> sceneSegments (addSceneSegment Default (scene_editor [scene 0 2 Default] 5 3))
       = [scene 0 2 Default, scene 5 3 Default]
   \<and> sc_end (scene 5 3 Default) < sc_start (scene 5 3 Default)
   \<and> \<not> segments_valid (addSceneSegment Default (scene_editor [scene 0 2 Default] 5 3))"
  by (simp add: addSceneSegment_def sortScenes_def segments_valid_def valid_scene_def
      sceneSegments_def minDuration_def scenario_defs)

section \<open>Adding a segment at the playhead\<close>

text \<open>
  C6, as the claim states it: adding a scene segment at playhead 5 to the collection
  \<open>[{0, 2}]\<close> leaves the selection empty and schedules no refresh.
\<close>

theorem C6_scene_add_selects_nothing:
  "sceneSegments (addSceneSegment Default (scene_editor [scene 0 2 Default] 5 60))
      = [scene 0 2 Default, scene 5 7 Default]
   \<and> selection (addSceneSegment Default (scene_editor [scene 0 2 Default] 5 60)) = None
   \<and> timers (addSceneSegment Default (scene_editor [scene 0 2 Default] 5 60)) = []"
  by (simp add: addSceneSegment_def sortScenes_def sceneSegments_def scenario_defs)

text \<open>
  C6. Adding a caption does nothing when the project has no captions object. Otherwise
  it creates the segment \<open>{caption-<now>, playhead, playhead + 2, "New caption"}\<close>,
  appends it, sorts the collection by start, selects the new segment and schedules one
  refresh (100 ms); the result is ascending by start, and on an ascending collection
  whose starts are at most the playhead it is the old collection followed by the new
  segment. Adding a scene segment adds nothing when the array of scene segments is
  missing. Otherwise it creates a segment of the chosen mode that starts at the playhead,
  appends it and sorts the collection by start, with the same result on an ascending
  collection; it leaves the selection and the captions as they are and schedules no
  refresh. Nothing is said here of the end of the new scene segment.
\<close>

theorem C6_add_segment_at_playhead:
  "(captions e = NoCaptions \<longrightarrow> handleAddCaption now e = e)
   \<and> (captions e \<noteq> NoCaptions \<longrightarrow>
      caption_segments (captions (handleAddCaption now e))
        = Some (sortCaptions ((case caption_segments (captions e) of None \<Rightarrow> [] | Some ys \<Rightarrow> ys)
            @ [caption (''caption-'' @ now) (playbackTime e) (playbackTime e + 2) ''New caption'']))
    \<and> selection (handleAddCaption now e) = Some (CaptionSelection (''caption-'' @ now))
    \<and> timers (handleAddCaption now e) = timers e @ [100]
    \<and> (\<forall>xs. caption_segments (captions (handleAddCaption now e)) = Some xs
          \<longrightarrow> sorted (map seg_start xs)))
   \<and> (caption_segments (captions e) = Some segs \<and> sorted (map seg_start segs)
        \<and> (\<forall>s\<in>set segs. seg_start s \<le> playbackTime e) \<longrightarrow>
      caption_segments (captions (handleAddCaption now e))
        = Some (segs @ [caption (''caption-'' @ now) (playbackTime e) (playbackTime e + 2)
              ''New caption'']))
   \<and> (timelineSceneSegments e = None \<longrightarrow> addSceneSegment mode e = e)
   \<and> (timelineSceneSegments e = Some scs \<longrightarrow>
        (\<exists>en. timelineSceneSegments (addSceneSegment mode e)
               = Some (sortScenes (scs @ [scene (playbackTime e) en mode])))
      \<and> sorted (map sc_start (sceneSegments (addSceneSegment mode e)))
      \<and> (sorted (map sc_start scs) \<and> (\<forall>s\<in>set scs. sc_start s \<le> playbackTime e) \<longrightarrow>
          (\<exists>en. sceneSegments (addSceneSegment mode e) = scs @ [scene (playbackTime e) en mode])))
   \<and> selection (addSceneSegment mode e) = selection e
   \<and> timers (addSceneSegment mode e) = timers e
   \<and> captions (addSceneSegment mode e) = captions e"
proof -
  let ?new = "caption (''caption-'' @ now) (playbackTime e) (playbackTime e + 2) ''New caption''"
  let ?snew = "scene (playbackTime e) (min (playbackTime e + 2) (zoom e)) mode"
  have a: "captions e \<noteq> NoCaptions \<Longrightarrow>
      handleAddCaption now e = scheduleRefresh 100
        (e\<lparr>captions := Segments (sortCaptions
             ((case caption_segments (captions e) of None \<Rightarrow> [] | Some ys \<Rightarrow> ys) @ [?new])),
           selection := Some (CaptionSelection (''caption-'' @ now))\<rparr>)"
    by (cases "captions e") (simp_all add: handleAddCaption_def Let_def caption_def)
  have a0: "captions e = NoCaptions \<Longrightarrow> handleAddCaption now e = e"
    by (simp add: handleAddCaption_def)
  have b: "timelineSceneSegments e = Some scs \<Longrightarrow>
      addSceneSegment mode e = e\<lparr>timelineSceneSegments := Some (sortScenes (scs @ [?snew]))\<rparr>"
    by (simp add: addSceneSegment_def Let_def scene_def)
  have b0: "timelineSceneSegments e = None \<Longrightarrow> addSceneSegment mode e = e"
    by (simp add: addSceneSegment_def Let_def)
  have c: "sortCaptions (segs @ [?new]) = segs @ [?new]"
    if "sorted (map seg_start segs)" "\<forall>s\<in>set segs. seg_start s \<le> playbackTime e"
    unfolding sortCaptions_def using that
    by (intro sort_key_append_last) (simp_all add: caption_def)
  have d: "sortScenes (scs @ [?snew]) = scs @ [?snew]"
    if "sorted (map sc_start scs)" "\<forall>s\<in>set scs. sc_start s \<le> playbackTime e"
    unfolding sortScenes_def using that
    by (intro sort_key_append_last) (simp_all add: scene_def)
  have ne: "captions e \<noteq> NoCaptions" if "caption_segments (captions e) = Some segs"
    using that by (cases "captions e") simp_all
  have cap1: "captions e \<noteq> NoCaptions \<longrightarrow>
      caption_segments (captions (handleAddCaption now e))
        = Some (sortCaptions ((case caption_segments (captions e) of None \<Rightarrow> [] | Some ys \<Rightarrow> ys)
            @ [?new]))
    \<and> selection (handleAddCaption now e) = Some (CaptionSelection (''caption-'' @ now))
    \<and> timers (handleAddCaption now e) = timers e @ [100]
    \<and> (\<forall>xs. caption_segments (captions (handleAddCaption now e)) = Some xs
          \<longrightarrow> sorted (map seg_start xs))"
    by (auto simp: a scheduleRefresh_def sortCaptions_def simp del: sort_key_simps)
  have cap2: "caption_segments (captions e) = Some segs \<and> sorted (map seg_start segs)
        \<and> (\<forall>s\<in>set segs. seg_start s \<le> playbackTime e) \<longrightarrow>
      caption_segments (captions (handleAddCaption now e)) = Some (segs @ [?new])"
    using c ne by (auto simp: a scheduleRefresh_def)
  have sc1: "timelineSceneSegments e = Some scs \<longrightarrow>
        (\<exists>en. timelineSceneSegments (addSceneSegment mode e)
               = Some (sortScenes (scs @ [scene (playbackTime e) en mode])))
      \<and> sorted (map sc_start (sceneSegments (addSceneSegment mode e)))
      \<and> (sorted (map sc_start scs) \<and> (\<forall>s\<in>set scs. sc_start s \<le> playbackTime e) \<longrightarrow>
          (\<exists>en. sceneSegments (addSceneSegment mode e) = scs @ [scene (playbackTime e) en mode]))"
  proof (intro impI conjI)
    assume s: "timelineSceneSegments e = Some scs"
    show "\<exists>en. timelineSceneSegments (addSceneSegment mode e)
               = Some (sortScenes (scs @ [scene (playbackTime e) en mode]))"
      by (rule exI [of _ "min (playbackTime e + 2) (zoom e)"]) (simp add: b [OF s])
    show "sorted (map sc_start (sceneSegments (addSceneSegment mode e)))"
      by (simp add: b [OF s] sceneSegments_def sortScenes_def del: sort_key_simps)
    assume "sorted (map sc_start scs) \<and> (\<forall>s\<in>set scs. sc_start s \<le> playbackTime e)"
    then have "sceneSegments (addSceneSegment mode e) = scs @ [?snew]"
      using d by (simp add: b [OF s] sceneSegments_def)
    then show "\<exists>en. sceneSegments (addSceneSegment mode e) = scs @ [scene (playbackTime e) en mode]"
      by blast
  qed
  have sc2: "selection (addSceneSegment mode e) = selection e
      \<and> timers (addSceneSegment mode e) = timers e
      \<and> captions (addSceneSegment mode e) = captions e"
    by (cases "timelineSceneSegments e") (simp_all add: addSceneSegment_def Let_def)
  from a0 b0 cap1 cap2 sc1 sc2 show ?thesis by blast
qed

theorem C6_add_segment_at_playhead_witness:
  "captions (caption_editor [caption ''A'' 0 2 ''hi''] 5) \<noteq> NoCaptions
   \<and> caption_segments (captions (caption_editor [caption ''A'' 0 2 ''hi''] 5))
        = Some [caption ''A'' 0 2 ''hi'']
   \<and> sorted (map seg_start [caption ''A'' 0 2 ''hi''])
   \<and> seg_start (caption ''A'' 0 2 ''hi'')
        \<le> playbackTime (caption_editor [caption ''A'' 0 2 ''hi''] 5)
   \<and> caption_segments (captions (handleAddCaption ''17'' (caption_editor [caption ''A'' 0 2 ''hi''] 5)))
        = Some [caption ''A'' 0 2 ''hi'', caption ''caption-17'' 5 7 ''New caption'']
   \<and> selection (handleAddCaption ''17'' (caption_editor [caption ''A'' 0 2 ''hi''] 5))
        = Some (CaptionSelection ''caption-17'')
   \<and> timers (handleAddCaption ''17'' (caption_editor [caption ''A'' 0 2 ''hi''] 5)) = [100]
   \<and> captions (scene_editor [scene 0 2 Default] 5 60) = NoCaptions
   \<and> handleAddCaption ''17'' (scene_editor [scene 0 2 Default] 5 60)
        = scene_editor [scene 0 2 Default] 5 60
   \<and> timelineSceneSegments (scene_editor [scene 0 2 Default] 5 60) = Some [scene 0 2 Default]
   \<and> sorted (map sc_start [scene 0 2 Default])
   \<and> sc_start (scene 0 2 Default) \<le> playbackTime (scene_editor [scene 0 2 Default] 5 60)
   \<and> (\<exists>en. sceneSegments (addSceneSegment HideCamera (scene_editor [scene 0 2 Default] 5 60))
        = [scene 0 2 Default, scene 5 en HideCamera])
   \<and> timelineSceneSegments
        ((scene_editor [scene 0 2 Default] 5 60)\<lparr>timelineSceneSegments := None\<rparr>) = None
   \<and> addSceneSegment HideCamera
        ((scene_editor [scene 0 2 Default] 5 60)\<lparr>timelineSceneSegments := None\<rparr>)
        = (scene_editor [scene 0 2 Default] 5 60)\<lparr>timelineSceneSegments := None\<rparr>"
proof -
  let ?segs = "[caption ''A'' 0 2 ''hi'']"
  let ?e = "caption_editor ?segs 5"
  let ?scs = "[scene 0 2 Default]"
  let ?s = "scene_editor ?scs 5 60"
  let ?n = "?s\<lparr>timelineSceneSegments := None\<rparr>"
  have h1: "captions ?e \<noteq> NoCaptions" by (simp add: scenario_defs)
  have h2: "caption_segments (captions ?e) = Some ?segs" by (simp add: scenario_defs)
  have h3: "sorted (map seg_start ?segs)" by simp
  have g4: "seg_start (caption ''A'' 0 2 ''hi'') \<le> playbackTime ?e"
    by (simp add: scenario_defs)
  then have h4: "\<forall>s\<in>set ?segs. seg_start s \<le> playbackTime ?e" by simp
  have h5: "captions ?s = NoCaptions" by (simp add: scenario_defs)
  have h6: "timelineSceneSegments ?s = Some ?scs" by (simp add: scenario_defs)
  have h7: "sorted (map sc_start ?scs)" by simp
  have g8: "sc_start (scene 0 2 Default) \<le> playbackTime ?s" by (simp add: scenario_defs)
  then have h8: "\<forall>s\<in>set ?scs. sc_start s \<le> playbackTime ?s" by simp
  have h9: "timelineSceneSegments ?n = None" by simp
  have p: "playbackTime ?e = 5" "timers ?e = []" "playbackTime ?s = 5"
    by (simp_all add: scenario_defs)
  note t = C6_add_segment_at_playhead [of ?e "''17''" ?segs HideCamera "[]"]
  from t h2 h3 h4 have "caption_segments (captions (handleAddCaption ''17'' ?e))
        = Some (?segs @ [caption (''caption-'' @ ''17'') (playbackTime ?e) (playbackTime ?e + 2)
              ''New caption''])"
    by blast
  then have a: "caption_segments (captions (handleAddCaption ''17'' ?e))
        = Some [caption ''A'' 0 2 ''hi'', caption ''caption-17'' 5 7 ''New caption'']"
    by (simp add: p)
  from t h1 have "selection (handleAddCaption ''17'' ?e) = Some (CaptionSelection (''caption-'' @ ''17''))"
    and "timers (handleAddCaption ''17'' ?e) = timers ?e @ [100]"
    by blast+
  then have b: "selection (handleAddCaption ''17'' ?e) = Some (CaptionSelection ''caption-17'')"
    and c: "timers (handleAddCaption ''17'' ?e) = [100]"
    by (simp_all add: p)
  note u = C6_add_segment_at_playhead [of ?s "''17''" "[]" HideCamera ?scs]
  from u h5 have d: "handleAddCaption ''17'' ?s = ?s" by blast
  from u h6 h7 h8 obtain en where
    "sceneSegments (addSceneSegment HideCamera ?s) = ?scs @ [scene (playbackTime ?s) en HideCamera]"
    by blast
  then have f: "\<exists>en. sceneSegments (addSceneSegment HideCamera ?s)
      = [scene 0 2 Default, scene 5 en HideCamera]"
    by (auto simp: p)
  from C6_add_segment_at_playhead [of ?n "''17''" "[]" HideCamera "[]"] h9
  have g: "addSceneSegment HideCamera ?n = ?n" by blast
  from h1 h2 h3 g4 a b c h5 d h6 h7 g8 f h9 g show ?thesis by blast
qed

end
